theory Spec2Isabelle
  imports Complex_Main "HOL-Library.Multiset"
begin

section \<open>The TCGA expression client: pagination, group statistics, z-score classification\<close>

text \<open>
  The development embeds \<^verbatim>\<open>TCGA_API.get_gene_specific_expression_in_cancer_type\<close>
  (\<^verbatim>\<open>src/tools/tcga/tcga_api.py\<close>) and the tool wrapper of
  \<^verbatim>\<open>src/tools/tcga/server.py\<close>. The method does its work through pandas; each
  pandas operation it calls is written out below as a function on lists, with the
  behaviour of pandas that the model takes over stated at the definition.
\<close>

subsection \<open>Numbers\<close>

text \<open>
  A pandas \<^verbatim>\<open>float64\<close> is modelled as an exact real number extended by the three
  special values of IEEE 754. Rounding to 53 bits, overflow and underflow are not
  modelled: every theorem below is about exact arithmetic. There is one zero (no
  \<^verbatim>\<open>-0.0\<close>); the only divisors of the program are a count and a standard
  deviation, neither of which is ever \<^verbatim>\<open>-0.0\<close>.
\<close>

datatype fl = NaN | NInf | Fin real | PInf

fun fl_neg :: "fl \<Rightarrow> fl" where
  "fl_neg NaN = NaN"
| "fl_neg NInf = PInf"
| "fl_neg (Fin a) = Fin (- a)"
| "fl_neg PInf = NInf"

fun fl_add :: "fl \<Rightarrow> fl \<Rightarrow> fl" where
  "fl_add (Fin a) (Fin b) = Fin (a + b)"
| "fl_add NaN _ = NaN"
| "fl_add _ NaN = NaN"
| "fl_add PInf NInf = NaN"
| "fl_add NInf PInf = NaN"
| "fl_add PInf _ = PInf"
| "fl_add _ PInf = PInf"
| "fl_add NInf _ = NInf"
| "fl_add _ NInf = NInf"

definition fl_sub :: "fl \<Rightarrow> fl \<Rightarrow> fl" where
  "fl_sub a b = fl_add a (fl_neg b)"

text \<open>\<^verbatim>\<open>x ** 2\<close>.\<close>

fun fl_sq :: "fl \<Rightarrow> fl" where
  "fl_sq NaN = NaN"
| "fl_sq NInf = PInf"
| "fl_sq (Fin a) = Fin (a * a)"
| "fl_sq PInf = PInf"

text \<open>
  numpy's division raises nothing: a zero divisor gives \<^verbatim>\<open>nan\<close> for \<^verbatim>\<open>0/0\<close>
  and an infinity of the dividend's sign otherwise.
\<close>

fun fl_div :: "fl \<Rightarrow> fl \<Rightarrow> fl" where
  "fl_div NaN _ = NaN"
| "fl_div _ NaN = NaN"
| "fl_div (Fin a) (Fin b) =
     (if b = 0 then (if a = 0 then NaN else if 0 < a then PInf else NInf)
      else Fin (a / b))"
| "fl_div (Fin a) _ = Fin 0"
| "fl_div PInf (Fin b) = (if 0 \<le> b then PInf else NInf)"
| "fl_div NInf (Fin b) = (if 0 \<le> b then NInf else PInf)"
| "fl_div _ _ = NaN"

fun fl_sqrt :: "fl \<Rightarrow> fl" where
  "fl_sqrt NaN = NaN"
| "fl_sqrt NInf = NaN"
| "fl_sqrt (Fin a) = (if a < 0 then NaN else Fin (sqrt a))"
| "fl_sqrt PInf = PInf"

text \<open>Comparisons: every comparison with \<^verbatim>\<open>nan\<close> is false.\<close>

fun fl_lt :: "fl \<Rightarrow> fl \<Rightarrow> bool" where
  "fl_lt NaN _ = False"
| "fl_lt _ NaN = False"
| "fl_lt (Fin a) (Fin b) = (a < b)"
| "fl_lt NInf NInf = False"
| "fl_lt NInf _ = True"
| "fl_lt _ NInf = False"
| "fl_lt PInf _ = False"
| "fl_lt _ PInf = True"

definition fl_gt :: "fl \<Rightarrow> fl \<Rightarrow> bool" where
  "fl_gt a b = fl_lt b a"

definition fl_le :: "fl \<Rightarrow> fl \<Rightarrow> bool" where
  "fl_le a b = (a \<noteq> NaN \<and> b \<noteq> NaN \<and> \<not> fl_lt b a)"

definition isnan :: "fl \<Rightarrow> bool" where
  "isnan a = (a = NaN)"

text \<open>
  \<^verbatim>\<open>round(x, 3)\<close> on a numpy float: multiply by 1000, round to the nearest integer
  with ties to the even one (\<^verbatim>\<open>rint\<close>), divide by 1000.
\<close>

definition rint :: "real \<Rightarrow> int" where
  "rint x = (let f = \<lfloor>x\<rfloor>; r = x - of_int f
             in if r < 1 / 2 then f else if 1 / 2 < r then f + 1
                else if even f then f else f + 1)"

fun fl_round3 :: "fl \<Rightarrow> fl" where
  "fl_round3 (Fin a) = Fin (of_int (rint (a * 1000)) / 1000)"
| "fl_round3 x = x"

subsection \<open>Series reductions\<close>

definition fl_sum :: "fl list \<Rightarrow> fl" where
  "fl_sum xs = foldr fl_add xs (Fin 0)"

text \<open>
  \<^verbatim>\<open>Series.mean()\<close> and \<^verbatim>\<open>Series.std()\<close> skip missing values
  (\<^verbatim>\<open>skipna=True\<close>). The mean of no value is \<^verbatim>\<open>nan\<close>. The standard deviation
  has \<^verbatim>\<open>ddof=1\<close>: the sum of squared deviations from the mean is divided by
  \<^verbatim>\<open>count - 1\<close>, and with \<^verbatim>\<open>count <= 1\<close> the result is \<^verbatim>\<open>nan\<close>. The grouped
  reductions \<^verbatim>\<open>mean\<close>, \<^verbatim>\<open>std\<close> and \<^verbatim>\<open>count\<close> of \<^verbatim>\<open>agg\<close> follow the same
  rules (pandas computes them by other summation orders, which agree in exact
  arithmetic); \<^verbatim>\<open>count\<close> is the number of values that are not missing.
\<close>

definition dropna :: "fl list \<Rightarrow> fl list" where
  "dropna xs = filter (\<lambda>x. \<not> isnan x) xs"

definition series_count :: "fl list \<Rightarrow> nat" where
  "series_count xs = length (dropna xs)"

definition series_mean :: "fl list \<Rightarrow> fl" where
  "series_mean xs =
     (let vals = dropna xs; n = length vals
      in if n = 0 then NaN else fl_div (fl_sum vals) (Fin (real n)))"

definition series_std :: "fl list \<Rightarrow> fl" where
  "series_std xs =
     (let vals = dropna xs; n = length vals
      in if n \<le> 1 then NaN
         else let avg = fl_div (fl_sum vals) (Fin (real n));
                  sqr = map (\<lambda>x. fl_sq (fl_sub avg x)) vals
              in fl_sqrt (fl_div (fl_sum sqr) (Fin (real (n - 1)))))"

subsection \<open>Errors\<close>

text \<open>
  Every exception the method can raise is a value. \<open>Other\<close> stands for whatever the
  parser raises on a body it rejects.
\<close>

datatype exn =
    UnboundLocalError string
  | KeyError string
  | ValueError_length_mismatch nat nat
  | ValueError_no_objects
  | TypeError string
  | Other string

subsection \<open>Frames\<close>

text \<open>
  A cell of a parsed page is text or a number; a missing value is \<open>Num NaN\<close>, as in
  pandas. A frame is its column names and its rows. pandas frames are rectangular;
  \<open>cell_at\<close> reads a cell and gives the missing value where a row is too short.
\<close>

datatype cell = Str string | Num fl

record frame =
  columns :: "string list"
  rows :: "cell list list"

definition cell_at :: "cell list \<Rightarrow> nat \<Rightarrow> cell" where
  "cell_at r i = (if i < length r then r ! i else Num NaN)"

text \<open>\<^verbatim>\<open>Index.get_loc\<close>: the position of a column name, if it is there.\<close>

fun index_of :: "'a list \<Rightarrow> 'a \<Rightarrow> nat option" where
  "index_of [] a = None"
| "index_of (x # xs) a = (if x = a then Some 0 else map_option Suc (index_of xs a))"

text \<open>
  \<^verbatim>\<open>df.columns = columns\<close>: pandas refuses new labels whose number differs from the
  number of columns of the frame (\<^verbatim>\<open>ValueError: Length mismatch: Expected axis has
  m elements, new values have n elements\<close>).
\<close>

definition set_columns :: "frame \<Rightarrow> string list \<Rightarrow> exn + frame" where
  "set_columns df cols =
     (if length cols \<noteq> length (columns df)
      then Inl (ValueError_length_mismatch (length (columns df)) (length cols))
      else Inr (df\<lparr>columns := cols\<rparr>))"

text \<open>
  \<^verbatim>\<open>pd.concat(all_data, ignore_index=True)\<close> on frames that carry the same column
  names (the loop gives every page the names of page 1): the rows one after the
  other, in the order of the list. pandas refuses an empty list
  (\<^verbatim>\<open>ValueError: No objects to concatenate\<close>).
\<close>

fun pd_concat :: "frame list \<Rightarrow> exn + frame" where
  "pd_concat [] = Inl ValueError_no_objects"
| "pd_concat (df # dfs) = Inr \<lparr>columns = columns df, rows = concat (map rows (df # dfs))\<rparr>"

subsection \<open>Sorting\<close>

text \<open>
  Insertion sort by a comparison, stable. pandas sorts with numpy's
  \<^verbatim>\<open>quicksort\<close>, which is an insertion sort on short arrays and leaves the order of
  equal keys unspecified on long ones; no theorem below says anything about the
  order of equal keys.
\<close>

fun insort_by :: "('a \<Rightarrow> 'a \<Rightarrow> bool) \<Rightarrow> 'a \<Rightarrow> 'a list \<Rightarrow> 'a list" where
  "insort_by le x [] = [x]"
| "insort_by le x (y # ys) = (if le x y then x # y # ys else y # insort_by le x ys)"

definition isort_by :: "('a \<Rightarrow> 'a \<Rightarrow> bool) \<Rightarrow> 'a list \<Rightarrow> 'a list" where
  "isort_by le xs = foldr (insort_by le) xs []"

text \<open>Group labels are sorted: numbers before text, text by code point.\<close>

fun str_le :: "string \<Rightarrow> string \<Rightarrow> bool" where
  "str_le [] _ = True"
| "str_le (x # xs) [] = False"
| "str_le (x # xs) (y # ys) =
     (if x = y then str_le xs ys else (of_char x :: nat) < of_char y)"

fun label_le :: "cell \<Rightarrow> cell \<Rightarrow> bool" where
  "label_le (Num a) (Num b) = fl_le a b"
| "label_le (Num a) (Str t) = True"
| "label_le (Str s) (Num b) = False"
| "label_le (Str s) (Str t) = str_le s t"

subsection \<open>Group statistics (line 51)\<close>

record srow =
  cohort :: cell
  mean :: fl
  std :: fl
  count_col :: nat

text \<open>
  \<^verbatim>\<open>DataFrame.sort_values("mean", ascending=...)\<close>: rows whose mean is missing go
  last (\<^verbatim>\<open>na_position="last"\<close>); for the descending order pandas reverses the
  rows, sorts ascending and reverses the result.
\<close>

definition sort_values_mean :: "bool \<Rightarrow> ('a srow_scheme) list \<Rightarrow> ('a srow_scheme) list" where
  "sort_values_mean ascending df =
     (let non_nans = filter (\<lambda>r. \<not> isnan (mean r)) df;
          nans = filter (\<lambda>r. isnan (mean r)) df;
          by_mean = (\<lambda>a b. fl_le (mean a) (mean b))
      in (if ascending then isort_by by_mean non_nans
          else rev (isort_by by_mean (rev non_nans))) @ nans)"

fun is_Str :: "cell \<Rightarrow> bool" where
  "is_Str (Str s) = True"
| "is_Str (Num a) = False"

fun num_of :: "cell \<Rightarrow> fl" where
  "num_of (Num a) = a"
| "num_of (Str s) = NaN"

text \<open>
  \<^verbatim>\<open>final_df.groupby("cohort")["expression_log2"].agg(["mean", "std", "count"])\<close>.
  A missing column is a \<^verbatim>\<open>KeyError\<close>. Rows whose cohort is missing are dropped
  (\<^verbatim>\<open>dropna=True\<close>); the groups come in the sorted order of their labels
  (\<^verbatim>\<open>sort=True\<close>). Text in the value column cannot be averaged: pandas raises a
  \<^verbatim>\<open>TypeError\<close>.
\<close>

definition group_values :: "(cell \<times> cell) list \<Rightarrow> cell \<Rightarrow> fl list" where
  "group_values kv k = map (num_of \<circ> snd) (filter (\<lambda>p. fst p = k) kv)"

definition agg_row :: "(cell \<times> cell) list \<Rightarrow> cell \<Rightarrow> srow" where
  "agg_row kv k =
     (let vals = group_values kv k
      in \<lparr>cohort = k, mean = series_mean vals, std = series_std vals,
          count_col = series_count vals\<rparr>)"

definition key_values :: "frame \<Rightarrow> nat \<Rightarrow> nat \<Rightarrow> (cell \<times> cell) list" where
  "key_values df i j =
     filter (\<lambda>p. fst p \<noteq> Num NaN) (map (\<lambda>r. (cell_at r i, cell_at r j)) (rows df))"

definition groupby_agg :: "frame \<Rightarrow> exn + srow list" where
  "groupby_agg df =
     (case index_of (columns df) ''cohort'' of
        None \<Rightarrow> Inl (KeyError ''cohort'')
      | Some i \<Rightarrow>
         (case index_of (columns df) ''expression_log2'' of
            None \<Rightarrow> Inl (KeyError ''Column not found: expression_log2'')
          | Some j \<Rightarrow>
             (let kv = key_values df i j
              in if list_ex (\<lambda>p. is_Str (snd p)) kv
                 then Inl (TypeError ''agg function failed [how->mean,dtype->object]'')
                 else Inr (map (agg_row kv) (isort_by label_le (remdups (map fst kv)))))))"

definition aggregate :: "frame \<Rightarrow> exn + srow list" where
  "aggregate final_df =
     (case groupby_agg final_df of
        Inl e \<Rightarrow> Inl e
      | Inr g \<Rightarrow> Inr (sort_values_mean False g))"

subsection \<open>Z-score and classification (lines 52 to 75)\<close>

record zrow = srow +
  zscore :: fl

text \<open>Line 52: the z-score of a row against the mean and deviation of all the means.\<close>

definition z_of :: "srow list \<Rightarrow> srow \<Rightarrow> fl" where
  "z_of df r =
     fl_div (fl_sub (mean r) (series_mean (map mean df))) (series_std (map mean df))"

definition add_zscore :: "srow list \<Rightarrow> zrow list" where
  "add_zscore df =
     map (\<lambda>r. \<lparr>cohort = cohort r, mean = mean r, std = std r, count_col = count_col r,
               zscore = z_of df r\<rparr>) df"

record entry =
  cancer_type :: cell
  mean_expression :: fl
  sample_count :: int

record result =
  high_expression_cancers :: "entry list"
  low_expression_cancers :: "entry list"

definition to_entry :: "'a srow_scheme \<Rightarrow> entry" where
  "to_entry row =
     \<lparr>cancer_type = cohort row, mean_expression = fl_round3 (mean row),
      sample_count = int (count_col row)\<rparr>"

definition classify :: "srow list \<Rightarrow> result" where
  "classify df_grouped =
     (let dfz = add_zscore df_grouped;
          high_expr = sort_values_mean False (filter (\<lambda>r. fl_gt (zscore r) (Fin 1)) dfz);
          low_expr = sort_values_mean True (filter (\<lambda>r. fl_lt (zscore r) (Fin (- 1))) dfz)
      in \<lparr>high_expression_cancers = map to_entry high_expr,
          low_expression_cancers = map to_entry low_expr\<rparr>)"

subsection \<open>The request and the response\<close>

text \<open>
  The query parameters of lines 13 to 21, the part of a response the method reads,
  and the two string operations applied to the body. \<open>strip\<close> removes the ASCII white
  space of Python's \<^verbatim>\<open>str.strip()\<close> from both ends; characters beyond ASCII are not
  modelled.
\<close>

record params =
  format :: string
  gene :: string
  sample_type :: string
  protocol :: string
  page_size :: int
  page :: int
  sort_by :: string

record response =
  status_code :: int
  resp_text :: string

definition isspace :: "char \<Rightarrow> bool" where
  "isspace c = ((of_char c :: nat) \<in> {9, 10, 11, 12, 13, 28, 29, 30, 31, 32})"

definition strip :: "string \<Rightarrow> string" where
  "strip s = rev (dropWhile isspace (rev (dropWhile isspace s)))"

definition startswith :: "string \<Rightarrow> string \<Rightarrow> bool" where
  "startswith s p = (take (length p) s = p)"

subsection \<open>The pagination loop (lines 23 to 45)\<close>

text \<open>
  The state of the loop: the parameters (of which only \<open>page\<close> changes), the frames
  collected, the local variable \<^verbatim>\<open>columns\<close> (unbound before page 1 is parsed), and
  the requests sent so far, which records the effect of \<^verbatim>\<open>session.get\<close>.
  The transport \<open>http_get\<close> and the parser \<open>read_csv\<close> (its first argument tells
  whether the first line is a header) are parameters. The loop has no bound: it is
  a partial function, and \<open>None\<close> is a run that never ends.
\<close>

record loop_state =
  params :: params
  all_data :: "frame list"
  columns_local :: "string list option"
  requests :: "params list"

definition append_page :: "loop_state \<Rightarrow> frame \<Rightarrow> loop_state" where
  "append_page st df =
     st\<lparr>all_data := all_data st @ [df],
        params := (params st)\<lparr>page := page (params st) + 1\<rparr>\<rparr>"

text \<open>Lines 36 to 45: parse the body, name the columns, append, go to the next page.\<close>

definition parse_page ::
  "(bool \<Rightarrow> string \<Rightarrow> exn + frame) \<Rightarrow> loop_state \<Rightarrow> string \<Rightarrow> exn + loop_state" where
  "parse_page read_csv st content =
     (if page (params st) = 1
      then (case read_csv True content of
              Inl e \<Rightarrow> Inl e
            | Inr df \<Rightarrow> Inr (append_page (st\<lparr>columns_local := Some (columns df)\<rparr>) df))
      else (case read_csv False content of
              Inl e \<Rightarrow> Inl e
            | Inr df \<Rightarrow>
               (case columns_local st of
                  None \<Rightarrow> Inl (UnboundLocalError ''columns'')
                | Some cols \<Rightarrow>
                   (case set_columns df cols of
                      Inl e \<Rightarrow> Inl e
                    | Inr df' \<Rightarrow> Inr (append_page st df')))))"

partial_function (option) fetch_loop ::
  "(params \<Rightarrow> response) \<Rightarrow> (bool \<Rightarrow> string \<Rightarrow> exn + frame) \<Rightarrow> loop_state
     \<Rightarrow> (exn + loop_state) option" where
  "fetch_loop http_get read_csv st =
     (let resp = http_get (params st);
          st1 = st\<lparr>requests := requests st @ [params st]\<rparr>
      in if status_code resp \<noteq> 200 then Some (Inr st1)
         else let content = strip (resp_text resp)
              in if content = [] \<or> startswith content ''No records'' then Some (Inr st1)
                 else (case parse_page read_csv st1 content of
                         Inl e \<Rightarrow> Some (Inl e)
                       | Inr st2 \<Rightarrow> fetch_loop http_get read_csv st2))"

subsection \<open>The method and the tool\<close>

definition request :: "string \<Rightarrow> int \<Rightarrow> params" where
  "request g p =
     \<lparr>format = ''tsv'', gene = g, sample_type = ''TM,TP,TR'', protocol = ''RSEM'',
      page_size = 2000, page = p, sort_by = ''cohort''\<rparr>"

definition init_state :: "string \<Rightarrow> loop_state" where
  "init_state g = \<lparr>params = request g 1, all_data = [], columns_local = None, requests = []\<rparr>"

text \<open>
  Lines 48 to 75. \<^verbatim>\<open>final_df\<close> is assigned only when a page was collected; line 51
  reads it, and reading it unbound raises \<^verbatim>\<open>UnboundLocalError\<close>.
\<close>

definition analyse :: "frame list \<Rightarrow> exn + result" where
  "analyse all_data_v =
     (case (if all_data_v \<noteq> []
            then (case pd_concat all_data_v of Inl e \<Rightarrow> Inl e | Inr df \<Rightarrow> Inr (Some df))
            else Inr None) of
        Inl e \<Rightarrow> Inl e
      | Inr final_df \<Rightarrow>
         (case final_df of
            None \<Rightarrow> Inl (UnboundLocalError ''final_df'')
          | Some df \<Rightarrow>
             (case aggregate df of
                Inl e \<Rightarrow> Inl e
              | Inr df_grouped \<Rightarrow> Inr (classify df_grouped))))"

definition get_gene_specific_expression_in_cancer_type ::
  "(params \<Rightarrow> response) \<Rightarrow> (bool \<Rightarrow> string \<Rightarrow> exn + frame) \<Rightarrow> string
     \<Rightarrow> (exn + result) option" where
  "get_gene_specific_expression_in_cancer_type http_get read_csv g =
     (case fetch_loop http_get read_csv (init_state g) of
        None \<Rightarrow> None
      | Some (Inl e) \<Rightarrow> Some (Inl e)
      | Some (Inr st) \<Rightarrow> Some (analyse (all_data st)))"

text \<open>
  \<^verbatim>\<open>str(e)\<close>, in the wording of CPython 3.11 and pandas 2; no theorem depends on
  the wording.
\<close>

fun digits :: "nat \<Rightarrow> string" where
  "digits n =
     (if n < 10 then [''0123456789'' ! n]
      else digits (n div 10) @ [''0123456789'' ! (n mod 10)])"

declare digits.simps [simp del]

fun str_exn :: "exn \<Rightarrow> string" where
  "str_exn (UnboundLocalError v) =
     ''cannot access local variable '' @ [CHR 0x27] @ v @ [CHR 0x27]
       @ '' where it is not associated with a value''"
| "str_exn (KeyError k) = [CHR 0x27] @ k @ [CHR 0x27]"
| "str_exn (ValueError_length_mismatch m n) =
     ''Length mismatch: Expected axis has '' @ digits m
       @ '' elements, new values have '' @ digits n @ '' elements''"
| "str_exn ValueError_no_objects = ''No objects to concatenate''"
| "str_exn (TypeError m) = m"
| "str_exn (Other m) = m"

text \<open>
  The tool of \<^verbatim>\<open>server.py\<close>: any exception of the method becomes a list of one item
  that carries an error message.
\<close>

record error_item =
  error :: string

datatype tool_output = Result result | Error_list "error_item list"

definition tool_get_gene_specific_expression_in_cancer_type ::
  "(params \<Rightarrow> response) \<Rightarrow> (bool \<Rightarrow> string \<Rightarrow> exn + frame) \<Rightarrow> string
     \<Rightarrow> tool_output option" where
  "tool_get_gene_specific_expression_in_cancer_type http_get read_csv g =
     (case get_gene_specific_expression_in_cancer_type http_get read_csv g of
        None \<Rightarrow> None
      | Some (Inl e) \<Rightarrow>
          Some (Error_list [\<lparr>error = ''An error occurred while search gene: '' @ str_exn e\<rparr>])
      | Some (Inr r) \<Rightarrow> Some (Result r))"

subsection \<open>Runs of the loop\<close>

text \<open>
  Notions for stating what the loop does. \<open>content_of\<close> is the stripped body of the
  response to the request for a page, and \<open>stops\<close> the test of lines 28 and 33 on
  it. \<open>good_pages\<close> says that pages 1 to \<open>length dfs\<close> pass the test and parse to
  the frames \<open>dfs\<close> (page 1 read with its header line, the later ones without), each
  with as many columns as page 1, whose column names are \<open>first_columns dfs\<close>.
  \<open>loop_state_after\<close> is the state of the loop once these pages are collected, and
  \<open>final_state\<close> the state in which it ends when the next page stops it.
\<close>

definition content_of :: "(params \<Rightarrow> response) \<Rightarrow> string \<Rightarrow> int \<Rightarrow> string" where
  "content_of http_get g p = strip (resp_text (http_get (request g p)))"

definition stops :: "(params \<Rightarrow> response) \<Rightarrow> string \<Rightarrow> int \<Rightarrow> bool" where
  "stops http_get g p =
     (status_code (http_get (request g p)) \<noteq> 200 \<or> content_of http_get g p = []
      \<or> startswith (content_of http_get g p) ''No records'')"

fun first_columns :: "frame list \<Rightarrow> string list" where
  "first_columns [] = []"
| "first_columns (df # dfs) = columns df"

definition good_pages ::
  "(params \<Rightarrow> response) \<Rightarrow> (bool \<Rightarrow> string \<Rightarrow> exn + frame) \<Rightarrow> string \<Rightarrow> frame list \<Rightarrow> bool" where
  "good_pages http_get read_csv g dfs =
     list_all (\<lambda>(i, df). \<not> stops http_get g (int i + 1)
        \<and> read_csv (i = 0) (content_of http_get g (int i + 1)) = Inr df
        \<and> length (columns df) = length (first_columns dfs)) (enumerate 0 dfs)"

definition loop_state_after :: "string \<Rightarrow> frame list \<Rightarrow> loop_state" where
  "loop_state_after g dfs =
     \<lparr>params = request g (int (length dfs) + 1),
      all_data = map (\<lambda>df. df\<lparr>columns := first_columns dfs\<rparr>) dfs,
      columns_local = (case dfs of [] \<Rightarrow> None | df # _ \<Rightarrow> Some (columns df)),
      requests = map (request g) [1..int (length dfs)]\<rparr>"

definition final_state :: "string \<Rightarrow> frame list \<Rightarrow> loop_state" where
  "final_state g dfs =
     \<lparr>params = request g (int (length dfs) + 1),
      all_data = map (\<lambda>df. df\<lparr>columns := first_columns dfs\<rparr>) dfs,
      columns_local = (case dfs of [] \<Rightarrow> None | df # _ \<Rightarrow> Some (columns df)),
      requests = map (request g) [1..int (length dfs) + 1]\<rparr>"

subsection \<open>Example data\<close>

text \<open>
  Data for the examples. Tables of group statistics: four cohorts, three with mean
  5 and one with mean 20, in the order of line 51; three cohorts with equal means;
  two cohorts. Parsed pages: a first page with its header, a second page read
  without header (pandas numbers its columns), a page with one column too many, and
  two pages of 2000 rows each. A transport whose first page is the body
  \<^verbatim>\<open>page-1\<close> in white space, whose second page and whose status from page 3 on are
  given, and parsers that map the bodies to the parsed pages. A frame with a missing
  value, and the frame and the table of the four cohorts.
\<close>

definition stats_outlier :: "srow list" where
  "stats_outlier =
     [\<lparr>cohort = Str ''D'', mean = Fin 20, std = Fin 1, count_col = 5\<rparr>,
      \<lparr>cohort = Str ''A'', mean = Fin 5, std = Fin 1, count_col = 5\<rparr>,
      \<lparr>cohort = Str ''B'', mean = Fin 5, std = Fin 1, count_col = 5\<rparr>,
      \<lparr>cohort = Str ''C'', mean = Fin 5, std = Fin 1, count_col = 5\<rparr>]"



definition page_one :: frame where
  "page_one =
     \<lparr>columns = [''cohort'', ''expression_log2''],
      rows = [[Str ''A'', Num (Fin 5)], [Str ''B'', Num (Fin 5)]]\<rparr>"

definition page_two :: frame where
  "page_two =
     \<lparr>columns = [''0'', ''1''],
      rows = [[Str ''C'', Num (Fin 5)], [Str ''D'', Num (Fin 20)]]\<rparr>"

definition page_wide :: frame where
  "page_wide =
     \<lparr>columns = [''0'', ''1'', ''2''],
      rows = [[Str ''C'', Num (Fin 5), Str ''x'']]\<rparr>"

definition ex_read_csv :: "bool \<Rightarrow> string \<Rightarrow> exn + frame" where
  "ex_read_csv header s =
     (if header \<and> s = ''page-1'' then Inr page_one
      else if \<not> header \<and> s = ''page-2'' then Inr page_two
      else if \<not> header \<and> s = ''page-wide'' then Inr page_wide
      else Inl (Other ''ParserError''))"

definition ex_http :: "string \<Rightarrow> int \<Rightarrow> params \<Rightarrow> response" where
  "ex_http second last_status p =
     (if page p = 1 then \<lparr>status_code = 200, resp_text = '' page-1 ''\<rparr>
      else if page p = 2 then \<lparr>status_code = 200, resp_text = second\<rparr>
      else \<lparr>status_code = last_status, resp_text = ''''\<rparr>)"

definition big_one :: frame where
  "big_one =
     \<lparr>columns = [''tcga_participant_barcode'', ''cohort'', ''gene'', ''expression_log2'',
                 ''z-score''],
      rows = replicate 2000 [Str ''TCGA-01'', Str ''ACC'', Str ''TP53'', Num (Fin 10), Num (Fin 0)]\<rparr>"

definition big_two :: frame where
  "big_two =
     \<lparr>columns = [''0'', ''1'', ''2'', ''3'', ''4''],
      rows = replicate 2000 [Str ''TCGA-02'', Str ''BRCA'', Str ''TP53'', Num (Fin 11), Num (Fin 0)]\<rparr>"

definition big_read_csv :: "bool \<Rightarrow> string \<Rightarrow> exn + frame" where
  "big_read_csv header s =
     (if header \<and> s = ''page-1'' then Inr big_one
      else if \<not> header \<and> s = ''page-2'' then Inr big_two
      else Inl (Other ''ParserError''))"



definition frame_four :: frame where
  "frame_four =
     \<lparr>columns = [''cohort'', ''expression_log2''],
      rows = [[Str ''A'', Num (Fin 5)], [Str ''B'', Num (Fin 5)], [Str ''C'', Num (Fin 5)],
              [Str ''D'', Num (Fin 20)]]\<rparr>"

definition stats_four :: "srow list" where
  "stats_four =
     [\<lparr>cohort = Str ''D'', mean = Fin 20, std = NaN, count_col = 1\<rparr>,
      \<lparr>cohort = Str ''A'', mean = Fin 5, std = NaN, count_col = 1\<rparr>,
      \<lparr>cohort = Str ''B'', mean = Fin 5, std = NaN, count_col = 1\<rparr>,
      \<lparr>cohort = Str ''C'', mean = Fin 5, std = NaN, count_col = 1\<rparr>]"

section \<open>Properties\<close>

subsection \<open>Sorting\<close>

lemma mset_insort_by: "mset (insort_by le x xs) = add_mset x (mset xs)"
  by (induction xs) auto

lemma set_insort_by: "set (insort_by le x xs) = insert x (set xs)"
  by (induction xs) auto

lemma mset_isort_by: "mset (isort_by le xs) = mset xs"
  by (induction xs) (auto simp: isort_by_def mset_insort_by)

lemma set_isort_by: "set (isort_by le xs) = set xs"
  by (induction xs) (auto simp: isort_by_def set_insort_by)

lemma mset_sort_values_mean: "mset (sort_values_mean asc df) = mset df"
  by (simp add: sort_values_mean_def Let_def mset_isort_by)

lemma sorted_insort_by:
  assumes total: "\<And>a. a \<in> set xs \<Longrightarrow> \<not> le x a \<Longrightarrow> le a x"
    and trans: "\<And>a b c. le a b \<Longrightarrow> le b c \<Longrightarrow> le a c"
    and sorted: "sorted_wrt le xs"
  shows "sorted_wrt le (insort_by le x xs)"
  using total sorted
proof (induction xs)
  case Nil
  then show ?case by simp
next
  case (Cons y ys)
  have ys: "sorted_wrt le ys" and y_ys: "\<forall>z\<in>set ys. le y z"
    using Cons.prems(2) by simp_all
  show ?case
  proof (cases "le x y")
    case True
    have "\<forall>z\<in>set ys. le x z" using True y_ys trans by blast
    with True Cons.prems(2) show ?thesis by simp
  next
    case False
    have yx: "le y x" using Cons.prems(1)[of y] False by simp
    have "sorted_wrt le (insort_by le x ys)"
      by (rule Cons.IH) (simp_all add: Cons.prems(1) ys)
    moreover have "\<forall>z\<in>set (insort_by le x ys). le y z"
      using y_ys yx by (simp add: set_insort_by)
    ultimately show ?thesis using False by simp
  qed
qed

lemma sorted_isort_by:
  assumes total: "\<And>a b. a \<in> set xs \<Longrightarrow> b \<in> set xs \<Longrightarrow> \<not> le a b \<Longrightarrow> le b a"
    and trans: "\<And>a b c. le a b \<Longrightarrow> le b c \<Longrightarrow> le a c"
  shows "sorted_wrt le (isort_by le xs)"
  using total
proof (induction xs)
  case Nil
  then show ?case by (simp add: isort_by_def)
next
  case (Cons x xs)
  have ih: "sorted_wrt le (isort_by le xs)"
    by (rule Cons.IH) (simp add: Cons.prems)
  have "sorted_wrt le (insort_by le x (isort_by le xs))"
  proof (rule sorted_insort_by)
    fix a assume "a \<in> set (isort_by le xs)" "\<not> le x a"
    then show "le a x" using Cons.prems[of x a] by (simp add: set_isort_by)
  next
    fix a b c assume "le a b" "le b c" then show "le a c" by (rule trans)
  next
    show "sorted_wrt le (isort_by le xs)" by (rule ih)
  qed
  then show ?case by (simp add: isort_by_def)
qed

lemma fl_le_total: "a \<noteq> NaN \<Longrightarrow> b \<noteq> NaN \<Longrightarrow> \<not> fl_le a b \<Longrightarrow> fl_le b a"
  by (cases a; cases b) (simp_all add: fl_le_def)

lemma fl_le_trans: "fl_le a b \<Longrightarrow> fl_le b c \<Longrightarrow> fl_le a c"
  by (cases a; cases b; cases c) (simp_all add: fl_le_def)

lemma sorted_by_mean:
  assumes "\<forall>r\<in>set xs. mean r \<noteq> NaN"
  shows "sorted_wrt (\<lambda>a b. fl_le (mean a) (mean b)) (isort_by (\<lambda>a b. fl_le (mean a) (mean b)) xs)"
proof (rule sorted_isort_by)
  fix a b :: "'a srow_scheme"
  assume "a \<in> set xs" "b \<in> set xs" "\<not> fl_le (mean a) (mean b)"
  then show "fl_le (mean b) (mean a)" using assms fl_le_total by blast
next
  fix a b c :: "'a srow_scheme"
  assume "fl_le (mean a) (mean b)" "fl_le (mean b) (mean c)"
  then show "fl_le (mean a) (mean c)" by (rule fl_le_trans)
qed

lemma sort_values_mean_asc:
  assumes "\<forall>r\<in>set df. mean r \<noteq> NaN"
  shows "sorted_wrt (\<lambda>a b. fl_le (mean a) (mean b)) (sort_values_mean True df)"
proof -
  have "filter (\<lambda>r. isnan (mean r)) df = []" using assms by (simp add: isnan_def)
  moreover have "\<forall>r\<in>set (filter (\<lambda>r. \<not> isnan (mean r)) df). mean r \<noteq> NaN"
    using assms by simp
  ultimately show ?thesis
    by (simp add: sort_values_mean_def Let_def sorted_by_mean)
qed

lemma sort_values_mean_desc:
  assumes "\<forall>r\<in>set df. mean r \<noteq> NaN"
  shows "sorted_wrt (\<lambda>a b. fl_le (mean b) (mean a)) (sort_values_mean False df)"
proof -
  have "filter (\<lambda>r. isnan (mean r)) df = []" using assms by (simp add: isnan_def)
  moreover have "\<forall>r\<in>set (rev (filter (\<lambda>r. \<not> isnan (mean r)) df)). mean r \<noteq> NaN"
    using assms by simp
  then have "sorted_wrt (\<lambda>a b. fl_le (mean a) (mean b))
      (isort_by (\<lambda>a b. fl_le (mean a) (mean b)) (rev (filter (\<lambda>r. \<not> isnan (mean r)) df)))"
    by (rule sorted_by_mean)
  ultimately show ?thesis
    by (simp add: sort_values_mean_def Let_def sorted_wrt_rev)
qed

subsection \<open>Rows selected by the classification\<close>

lemma to_entry_truncate: "to_entry (srow.truncate r) = to_entry r"
  by (simp add: to_entry_def srow.truncate_def)

lemma truncate_add_zscore: "map srow.truncate (add_zscore df) = df"
proof -
  have "map (srow.truncate \<circ> (\<lambda>r. \<lparr>cohort = cohort r, mean = mean r, std = std r,
            count_col = count_col r, zscore = z_of df r\<rparr>)) df = df"
    by (rule map_idI) (simp add: srow.truncate_def)
  then show ?thesis by (simp add: add_zscore_def)
qed

lemma zscore_add_zscore:
  "r \<in> set (add_zscore df) \<Longrightarrow> zscore r = z_of df (srow.truncate r)"
  by (auto simp: add_zscore_def srow.truncate_def z_of_def)

lemma z_of_nan: "mean r = NaN \<Longrightarrow> z_of df r = NaN"
  by (simp add: z_of_def fl_sub_def)

lemma fl_gt_not_nan: "fl_gt a b \<Longrightarrow> a \<noteq> NaN"
  by (cases a; cases b) (simp_all add: fl_gt_def)

lemma fl_lt_not_nan: "fl_lt a b \<Longrightarrow> a \<noteq> NaN"
  by (cases a; cases b) simp_all

text \<open>The rows selected by a test on the z-score, as rows of the input.\<close>

lemma selected_rows:
  assumes nan: "\<And>z. p z \<Longrightarrow> z \<noteq> NaN"
  defines "sel \<equiv> \<lambda>asc df. map srow.truncate
      (sort_values_mean asc (filter (\<lambda>r. p (zscore r)) (add_zscore df)))"
  shows "mset (sel asc df) = filter_mset (\<lambda>r. p (z_of df r)) (mset df)"
    and "\<forall>r\<in>set (sel asc df). mean r \<noteq> NaN"
    and "sorted_wrt (\<lambda>a b. fl_le (mean a) (mean b)) (sel True df)"
    and "sorted_wrt (\<lambda>a b. fl_le (mean b) (mean a)) (sel False df)"
proof -
  let ?f = "filter (\<lambda>r. p (zscore r)) (add_zscore df)"
  have eq: "filter (\<lambda>r. p (zscore r)) (add_zscore df)
      = filter (\<lambda>r. p (z_of df (srow.truncate r))) (add_zscore df)"
    by (rule filter_cong) (simp_all add: zscore_add_zscore)
  have "mset (sel asc df) = image_mset srow.truncate (mset ?f)"
    by (simp add: sel_def mset_sort_values_mean)
  also have "\<dots> = filter_mset (\<lambda>r. p (z_of df r)) (image_mset srow.truncate (mset (add_zscore df)))"
    by (simp add: eq filter_mset_image_mset)
  also have "image_mset srow.truncate (mset (add_zscore df)) = mset df"
    using truncate_add_zscore[of df] by (metis mset_map)
  finally show m: "mset (sel asc df) = filter_mset (\<lambda>r. p (z_of df r)) (mset df)" .
  have nn: "\<forall>r\<in>set ?f. mean r \<noteq> NaN"
  proof
    fix r assume r: "r \<in> set ?f"
    then have "p (z_of df (srow.truncate r))" using zscore_add_zscore[of r df] by simp
    then have "z_of df (srow.truncate r) \<noteq> NaN" by (rule nan)
    then have "mean (srow.truncate r) \<noteq> NaN" using z_of_nan by blast
    then show "mean r \<noteq> NaN" by (simp add: srow.truncate_def)
  qed
  have "set (sort_values_mean asc ?f) = set ?f"
    using mset_sort_values_mean[of asc ?f] by (metis set_mset_mset)
  then show "\<forall>r\<in>set (sel asc df). mean r \<noteq> NaN"
    using nn by (auto simp: sel_def srow.truncate_def)
  show "sorted_wrt (\<lambda>a b. fl_le (mean a) (mean b)) (sel True df)"
    using sort_values_mean_asc[OF nn] by (simp add: sel_def sorted_wrt_map srow.truncate_def)
  show "sorted_wrt (\<lambda>a b. fl_le (mean b) (mean a)) (sel False df)"
    using sort_values_mean_desc[OF nn] by (simp add: sel_def sorted_wrt_map srow.truncate_def)
qed

lemma classify_rows:
  "high_expression_cancers (classify df) = map to_entry (map srow.truncate
      (sort_values_mean False (filter (\<lambda>r. fl_gt (zscore r) (Fin 1)) (add_zscore df))))"
  "low_expression_cancers (classify df) = map to_entry (map srow.truncate
      (sort_values_mean True (filter (\<lambda>r. fl_lt (zscore r) (Fin (- 1))) (add_zscore df))))"
  by (simp_all add: classify_def Let_def to_entry_truncate comp_def)

subsection \<open>Rounding and finite means\<close>









subsection \<open>The two lists\<close>

lemma sqrt_225_4: "sqrt (225 / 4) = 15 / 2"
  by (rule real_sqrt_unique) (simp_all add: power2_eq_square)

lemma std_stats_outlier: "series_std (map mean stats_outlier) = Fin (15 / 2)"
  by (simp add: stats_outlier_def series_std_def dropna_def isnan_def fl_sum_def fl_sub_def
      sqrt_225_4)

lemma mean_stats_outlier: "series_mean (map mean stats_outlier) = Fin (35 / 4)"
  by (simp add: stats_outlier_def series_mean_def dropna_def isnan_def fl_sum_def)

lemma rint_int: "rint (of_int n) = n"
  by (simp add: rint_def)





lemma fl_gt_lt_exclusive: "fl_gt z (Fin 1) \<Longrightarrow> fl_lt z (Fin (- 1)) \<Longrightarrow> False"
  by (cases z) (simp_all add: fl_gt_def)

lemma cancer_type_to_entry: "map cancer_type (map to_entry rs) = map cohort rs"
  by (simp add: to_entry_def comp_def)

lemma classify_labels:
  obtains hs ls where
    "map cancer_type (high_expression_cancers (classify df)) = map cohort hs"
    "mset hs = mset (filter (\<lambda>r. fl_gt (z_of df r) (Fin 1)) df)"
    "map cancer_type (low_expression_cancers (classify df)) = map cohort ls"
    "mset ls = mset (filter (\<lambda>r. fl_lt (z_of df r) (Fin (- 1))) df)"
proof -
  let ?hs = "map srow.truncate
      (sort_values_mean False (filter (\<lambda>r. fl_gt (zscore r) (Fin 1)) (add_zscore df)))"
  let ?ls = "map srow.truncate
      (sort_values_mean True (filter (\<lambda>r. fl_lt (zscore r) (Fin (- 1))) (add_zscore df)))"
  have h: "mset ?hs = mset (filter (\<lambda>r. fl_gt (z_of df r) (Fin 1)) df)"
    using selected_rows(1)[of "\<lambda>z. fl_gt z (Fin 1)" False df] fl_gt_not_nan by simp
  have l: "mset ?ls = mset (filter (\<lambda>r. fl_lt (z_of df r) (Fin (- 1))) df)"
    using selected_rows(1)[of "\<lambda>z. fl_lt z (Fin (- 1))" True df] fl_lt_not_nan by simp
  have ch: "map cancer_type (high_expression_cancers (classify df)) = map cohort ?hs"
    unfolding classify_rows by (rule cancer_type_to_entry)
  have cl: "map cancer_type (low_expression_cancers (classify df)) = map cohort ?ls"
    unfolding classify_rows by (rule cancer_type_to_entry)
  show thesis using ch h cl l by (rule that)
qed

text \<open>
  C8. When the rows of the table of group statistics have pairwise different cohort
  labels (the table is a mapping), no label occurs twice in the high list, none
  occurs twice in the low list, and none occurs in both.
\<close>

theorem classify_lists_disjoint:
  assumes "distinct (map cohort df)"
  shows "distinct (map cancer_type (high_expression_cancers (classify df)))
    \<and> distinct (map cancer_type (low_expression_cancers (classify df)))
    \<and> set (map cancer_type (high_expression_cancers (classify df)))
        \<inter> set (map cancer_type (low_expression_cancers (classify df))) = {}"
proof -
  obtain hs ls where
    h: "map cancer_type (high_expression_cancers (classify df)) = map cohort hs"
      "mset hs = mset (filter (\<lambda>r. fl_gt (z_of df r) (Fin 1)) df)"
    and l: "map cancer_type (low_expression_cancers (classify df)) = map cohort ls"
      "mset ls = mset (filter (\<lambda>r. fl_lt (z_of df r) (Fin (- 1))) df)"
    by (rule classify_labels)
  have dist: "distinct (map cohort rs)" if "mset rs = mset (filter p df)" for rs p
  proof -
    have "mset (map cohort rs) = mset (map cohort (filter p df))"
      using that by (metis mset_map)
    moreover have "distinct (map cohort (filter p df))"
      using assms by (rule distinct_map_filter)
    ultimately show ?thesis by (metis mset_eq_imp_distinct_iff)
  qed
  have inj: "inj_on cohort (set df)" using assms by (simp add: distinct_map)
  have sh: "set hs = {r \<in> set df. fl_gt (z_of df r) (Fin 1)}"
    using h(2) by (metis set_filter set_mset_mset)
  have sl: "set ls = {r \<in> set df. fl_lt (z_of df r) (Fin (- 1))}"
    using l(2) by (metis set_filter set_mset_mset)
  have "cohort ` set hs \<inter> cohort ` set ls = {}"
  proof (rule ccontr)
    assume "cohort ` set hs \<inter> cohort ` set ls \<noteq> {}"
    then obtain a b where ab: "a \<in> set hs" "b \<in> set ls" "cohort a = cohort b" by auto
    then have "a \<in> set df" "b \<in> set df" using sh sl by simp_all
    then have "a = b" using inj ab(3) by (simp add: inj_on_def)
    then show False using ab sh sl fl_gt_lt_exclusive by auto
  qed
  then show ?thesis using dist[OF h(2)] dist[OF l(2)] h(1) l(1) by simp
qed

theorem classify_lists_disjoint_witness:
  "distinct (map cohort stats_outlier)
    \<and> distinct (map cancer_type (high_expression_cancers (classify stats_outlier)))
    \<and> distinct (map cancer_type (low_expression_cancers (classify stats_outlier)))
    \<and> set (map cancer_type (high_expression_cancers (classify stats_outlier)))
        \<inter> set (map cancer_type (low_expression_cancers (classify stats_outlier))) = {}"
proof -
  have d: "distinct (map cohort stats_outlier)" by (simp add: stats_outlier_def)
  show ?thesis using d classify_lists_disjoint[OF d] by blast
qed

subsection \<open>Degenerate deviations\<close>






















subsection \<open>The pagination loop\<close>

lemma first_columns_append [simp]:
  "first_columns (xs @ ys) = (if xs = [] then first_columns ys else first_columns xs)"
  by (cases xs) simp_all

lemma init_state_after: "init_state g = loop_state_after g []"
  by (simp add: init_state_def loop_state_after_def)

lemma good_pages_snoc:
  "good_pages hg rc g (dfs @ [df]) \<longleftrightarrow>
     good_pages hg rc g dfs \<and> \<not> stops hg g (int (length dfs) + 1)
     \<and> rc (dfs = []) (content_of hg g (int (length dfs) + 1)) = Inr df
     \<and> length (columns df) = length (first_columns (dfs @ [df]))"
  by (cases dfs) (auto simp: good_pages_def enumerate_append_eq)

lemma requests_snoc:
  "map (request g) [1..int n] @ [request g (int n + 1)] = map (request g) [1..int (Suc n)]"
proof -
  have "[1..int (Suc n)] = [1..int n] @ [int n + 1]"
    using upto_rec2[of 1 "int n + 1"] by (simp add: add.commute)
  then show ?thesis by simp
qed

lemma fetch_loop_step:
  assumes "\<not> stops hg g (int (length dfs) + 1)"
    and "rc (dfs = []) (content_of hg g (int (length dfs) + 1)) = Inr df"
    and "length (columns df) = length (first_columns (dfs @ [df]))"
  shows "fetch_loop hg rc (loop_state_after g dfs) = fetch_loop hg rc (loop_state_after g (dfs @ [df]))"
proof -
  let ?st = "loop_state_after g dfs"
  let ?st1 = "?st\<lparr>requests := requests ?st @ [params ?st]\<rparr>"
  let ?c = "content_of hg g (int (length dfs) + 1)"
  have p: "params ?st = request g (int (length dfs) + 1)" by (simp add: loop_state_after_def)
  have pg: "page (params ?st) = 1 \<longleftrightarrow> dfs = []" by (simp add: p request_def)
  have parse: "parse_page rc ?st1 ?c = Inr (loop_state_after g (dfs @ [df]))"
  proof (cases dfs)
    case Nil
    then show ?thesis using assms(2)
      by (simp add: parse_page_def loop_state_after_def append_page_def request_def)
  next
    case (Cons d ds)
    then have "length (columns df) = length (columns d)" using assms(3) by simp
    then show ?thesis using assms(2) Cons requests_snoc[of g "length dfs"]
      by (simp add: parse_page_def loop_state_after_def append_page_def request_def
          set_columns_def)
  qed
  have "fetch_loop hg rc ?st = (case parse_page rc ?st1 ?c of
        Inl e \<Rightarrow> Some (Inl e) | Inr st2 \<Rightarrow> fetch_loop hg rc st2)"
    using assms(1) by (subst fetch_loop.simps) (simp add: p stops_def content_of_def Let_def)
  then show ?thesis by (simp add: parse)
qed

lemma fetch_loop_run:
  assumes "good_pages hg rc g dfs"
  shows "fetch_loop hg rc (init_state g) = fetch_loop hg rc (loop_state_after g dfs)"
  using assms
proof (induction dfs rule: rev_induct)
  case Nil
  then show ?case by (simp add: init_state_after)
next
  case (snoc df dfs)
  then have g: "good_pages hg rc g dfs" "\<not> stops hg g (int (length dfs) + 1)"
    "rc (dfs = []) (content_of hg g (int (length dfs) + 1)) = Inr df"
    "length (columns df) = length (first_columns (dfs @ [df]))"
    by (simp_all add: good_pages_snoc)
  have "fetch_loop hg rc (loop_state_after g dfs) = fetch_loop hg rc (loop_state_after g (dfs @ [df]))"
    using g(2,3,4) by (rule fetch_loop_step)
  then show ?case using snoc.IH[OF g(1)] by simp
qed

lemma fetch_loop_stop:
  assumes "stops hg g (int (length dfs) + 1)"
  shows "fetch_loop hg rc (loop_state_after g dfs) = Some (Inr (final_state g dfs))"
proof -
  have "map (request g) [1..int (length dfs)] @ [request g (int (length dfs) + 1)]
      = map (request g) [1..int (length dfs) + 1]"
    using requests_snoc[of g "length dfs"] by (simp add: add.commute)
  then have "(loop_state_after g dfs)\<lparr>requests := requests (loop_state_after g dfs)
      @ [params (loop_state_after g dfs)]\<rparr> = final_state g dfs"
    by (simp add: loop_state_after_def final_state_def)
  then show ?thesis using assms
    by (subst fetch_loop.simps)
      (auto simp: Let_def stops_def content_of_def loop_state_after_def)
qed


lemma parse_page_after:
  assumes "parse_page rc ((loop_state_after g dfs)\<lparr>requests := rq\<rparr>)
      (content_of hg g (int (length dfs) + 1)) = Inr st2"
  shows "\<exists>df. rc (dfs = []) (content_of hg g (int (length dfs) + 1)) = Inr df
      \<and> length (columns df) = length (first_columns (dfs @ [df]))"
proof (cases dfs)
  case Nil
  then show ?thesis using assms
    by (auto simp: parse_page_def loop_state_after_def request_def split: sum.splits)
next
  case (Cons d ds)
  then show ?thesis using assms
    by (auto simp: parse_page_def loop_state_after_def request_def set_columns_def
        split: sum.splits if_splits)
qed

lemma fetch_loop_pages:
  assumes "fetch_loop hg rc st = Some y"
  shows "\<forall>dfs0 st'. y = Inr st' \<and> st = loop_state_after g dfs0 \<and> good_pages hg rc g dfs0 \<longrightarrow>
    (\<exists>dfs. good_pages hg rc g dfs \<and> stops hg g (int (length dfs) + 1) \<and> st' = final_state g dfs)"
proof (rule fetch_loop.raw_induct[where P = "\<lambda>hg rc st y. \<forall>dfs0 st'.
    y = Inr st' \<and> st = loop_state_after g dfs0 \<and> good_pages hg rc g dfs0 \<longrightarrow>
    (\<exists>dfs. good_pages hg rc g dfs \<and> stops hg g (int (length dfs) + 1) \<and> st' = final_state g dfs)",
    OF _ assms])
  fix loop hg rc st y
  assume 1: "\<And>hg rc st y. loop hg rc st = Some y \<Longrightarrow> \<forall>dfs0 st'.
    y = Inr st' \<and> st = loop_state_after g dfs0 \<and> good_pages hg rc g dfs0 \<longrightarrow>
    (\<exists>dfs. good_pages hg rc g dfs \<and> stops hg g (int (length dfs) + 1) \<and> st' = final_state g dfs)"
    "(let resp = hg (params st); st1 = st\<lparr>requests := requests st @ [params st]\<rparr>
          in if status_code resp \<noteq> 200 then Some (Inr st1)
             else let content = strip (resp_text resp)
                  in if content = [] \<or> startswith content ''No records'' then Some (Inr st1)
                     else (case parse_page rc st1 content of
                             Inl e \<Rightarrow> Some (Inl e)
                           | Inr st2 \<Rightarrow> loop hg rc st2)) = Some y"
  show "\<forall>dfs0 st'.
    y = Inr st' \<and> st = loop_state_after g dfs0 \<and> good_pages hg rc g dfs0 \<longrightarrow>
    (\<exists>dfs. good_pages hg rc g dfs \<and> stops hg g (int (length dfs) + 1) \<and> st' = final_state g dfs)"
  proof (intro allI impI, elim conjE)
    fix dfs0 st'
    assume y: "y = Inr st'" and st: "st = loop_state_after g dfs0" and good: "good_pages hg rc g dfs0"
    let ?c = "content_of hg g (int (length dfs0) + 1)"
    have p: "params st = request g (int (length dfs0) + 1)" by (simp add: st loop_state_after_def)
    show "\<exists>dfs. good_pages hg rc g dfs \<and> stops hg g (int (length dfs) + 1) \<and> st' = final_state g dfs"
    proof (cases "stops hg g (int (length dfs0) + 1)")
      case True
      have "map (request g) [1..int (length dfs0)] @ [request g (int (length dfs0) + 1)]
          = map (request g) [1..int (length dfs0) + 1]"
        using requests_snoc[of g "length dfs0"] by (simp add: add.commute)
      then have fin: "st\<lparr>requests := requests st @ [params st]\<rparr> = final_state g dfs0"
        by (simp add: st loop_state_after_def final_state_def)
      have "y = Inr (st\<lparr>requests := requests st @ [params st]\<rparr>)"
        using 1(2) True by (auto simp: Let_def stops_def content_of_def p split: if_splits)
      then have "st' = final_state g dfs0" using y fin by simp
      then show ?thesis using good True by blast
    next
      case False
      let ?st1 = "st\<lparr>requests := requests st @ [params st]\<rparr>"
      have body: "(case parse_page rc ?st1 ?c of Inl e \<Rightarrow> Some (Inl e)
          | Inr st2 \<Rightarrow> loop hg rc st2) = Some y"
        using 1(2) False by (simp add: Let_def stops_def content_of_def p)
      then obtain st2 where st2: "parse_page rc ?st1 ?c = Inr st2" "loop hg rc st2 = Some y"
        using y by (auto split: sum.splits)
      from st2(1) obtain df where df: "rc (dfs0 = []) ?c = Inr df"
        "length (columns df) = length (first_columns (dfs0 @ [df]))"
        unfolding st using parse_page_after by blast
      have good': "good_pages hg rc g (dfs0 @ [df])"
        using good False df by (simp add: good_pages_snoc)
      have st2_eq: "st2 = loop_state_after g (dfs0 @ [df])"
      proof (cases dfs0)
        case Nil
        then show ?thesis using st2(1) df(1) unfolding st
          by (simp add: parse_page_def loop_state_after_def append_page_def request_def)
      next
        case (Cons d ds)
        then have "length (columns df) = length (columns d)" using df(2) by simp
        then show ?thesis using st2(1) df(1) Cons requests_snoc[of g "length dfs0"] unfolding st
          by (simp add: parse_page_def loop_state_after_def append_page_def request_def
              set_columns_def)
      qed
      show ?thesis using 1(1)[OF st2(2)] y st2_eq good' by blast
    qed
  qed
qed

subsection \<open>Failed requests\<close>

lemma ex_good_pages:
  "good_pages (ex_http ''page-2'' s) ex_read_csv g [page_one, page_two]"
  by (simp add: good_pages_def enumerate_eq_zip stops_def content_of_def strip_def isspace_def startswith_def
    request_def ex_http_def ex_read_csv_def page_one_def page_two_def)

lemma ex_good_page_one:
  "good_pages (ex_http b s) ex_read_csv g [page_one]"
  by (simp add: good_pages_def enumerate_eq_zip stops_def content_of_def strip_def isspace_def startswith_def
    request_def ex_http_def ex_read_csv_def page_one_def)



subsection \<open>Empty data and mismatched pages\<close>



text \<open>
  C5. When a page after the first parses to a frame whose number of columns differs
  from that of page 1, the assignment of the column names raises (pandas' length
  mismatch, a \<^verbatim>\<open>ValueError\<close>): the page is not appended, the method fails, and the tool
  returns the error.
\<close>

theorem schema_mismatch_error:
  assumes "good_pages http_get read_csv g dfs" and "dfs \<noteq> []"
    and "\<not> stops http_get g (int (length dfs) + 1)"
    and "read_csv False (content_of http_get g (int (length dfs) + 1)) = Inr df"
    and "length (columns df) \<noteq> length (first_columns dfs)"
  shows "fetch_loop http_get read_csv (init_state g)
        = Some (Inl (ValueError_length_mismatch (length (columns df)) (length (first_columns dfs))))
    \<and> get_gene_specific_expression_in_cancer_type http_get read_csv g
        = Some (Inl (ValueError_length_mismatch (length (columns df)) (length (first_columns dfs))))
    \<and> tool_get_gene_specific_expression_in_cancer_type http_get read_csv g
        = Some (Error_list [\<lparr>error = ''An error occurred while search gene: ''
            @ str_exn (ValueError_length_mismatch (length (columns df))
                (length (first_columns dfs)))\<rparr>])"
proof -
  let ?st = "loop_state_after g dfs"
  let ?e = "ValueError_length_mismatch (length (columns df)) (length (first_columns dfs))"
  obtain d ds where dfs: "dfs = d # ds" using assms(2) by (cases dfs) auto
  have p: "params ?st = request g (int (length dfs) + 1)" by (simp add: loop_state_after_def)
  have parse: "parse_page read_csv (?st\<lparr>requests := requests ?st @ [params ?st]\<rparr>)
      (content_of http_get g (int (length dfs) + 1)) = Inl ?e"
    using assms(4,5) unfolding dfs
    by (simp add: parse_page_def loop_state_after_def request_def set_columns_def)
  have "fetch_loop http_get read_csv ?st
      = (case parse_page read_csv (?st\<lparr>requests := requests ?st @ [params ?st]\<rparr>)
            (content_of http_get g (int (length dfs) + 1)) of
          Inl e \<Rightarrow> Some (Inl e) | Inr st2 \<Rightarrow> fetch_loop http_get read_csv st2)"
    using assms(3) by (subst fetch_loop.simps) (simp add: p stops_def content_of_def Let_def)
  then have "fetch_loop http_get read_csv ?st = Some (Inl ?e)"
    by (simp only: parse sum.case)
  then have f: "fetch_loop http_get read_csv (init_state g) = Some (Inl ?e)"
    using fetch_loop_run[OF assms(1)] by simp
  then have m: "get_gene_specific_expression_in_cancer_type http_get read_csv g = Some (Inl ?e)"
    by (simp add: get_gene_specific_expression_in_cancer_type_def)
  then show ?thesis using f
    by (simp add: tool_get_gene_specific_expression_in_cancer_type_def)
qed

lemma digits_small: "digits 3 = ''3''" "digits 2 = ''2''"
  by (subst digits.simps, simp)+

lemma str_mismatch_3_2:
  "str_exn (ValueError_length_mismatch 3 2)
    = ''Length mismatch: Expected axis has 3 elements, new values have 2 elements''"
  by (simp add: digits_small)

theorem schema_mismatch_error_witness:
  "good_pages (ex_http ''page-wide'' 200) ex_read_csv ''TP53'' [page_one]
   \<and> \<not> stops (ex_http ''page-wide'' 200) ''TP53'' 2
   \<and> ex_read_csv False (content_of (ex_http ''page-wide'' 200) ''TP53'' 2) = Inr page_wide
   \<and> length (columns page_wide) = 3 \<and> length (columns page_one) = 2
   \<and> get_gene_specific_expression_in_cancer_type (ex_http ''page-wide'' 200) ex_read_csv ''TP53''
        = Some (Inl (ValueError_length_mismatch 3 2))
   \<and> tool_get_gene_specific_expression_in_cancer_type (ex_http ''page-wide'' 200) ex_read_csv ''TP53''
        = Some (Error_list [\<lparr>error = ''An error occurred while search gene: Length mismatch: Expected axis has 3 elements, new values have 2 elements''\<rparr>])"
proof -
  have a: "good_pages (ex_http ''page-wide'' 200) ex_read_csv ''TP53'' [page_one]"
    by (rule ex_good_page_one)
  have b: "[page_one] \<noteq> []" by simp
  have c: "\<not> stops (ex_http ''page-wide'' 200) ''TP53'' (int (length [page_one]) + 1)"
    by (simp add: stops_def content_of_def strip_def isspace_def startswith_def ex_http_def
        request_def)
  have d: "ex_read_csv False (content_of (ex_http ''page-wide'' 200) ''TP53''
      (int (length [page_one]) + 1)) = Inr page_wide"
    by (simp add: content_of_def strip_def isspace_def ex_http_def request_def ex_read_csv_def)
  have e: "length (columns page_wide) \<noteq> length (first_columns [page_one])"
    by (simp add: page_wide_def page_one_def)
  have l: "length (columns page_wide) = 3" "length (columns page_one) = 2"
    by (simp_all add: page_wide_def page_one_def)
  show ?thesis
  proof -
    note t = schema_mismatch_error[of "ex_http ''page-wide'' 200" ex_read_csv "''TP53''"
        "[page_one]" page_wide, OF a b c d e]
    have h: "first_columns [page_one] = columns page_one" by simp
    have c': "\<not> stops (ex_http ''page-wide'' 200) ''TP53'' 2" using c by simp
    have d': "ex_read_csv False (content_of (ex_http ''page-wide'' 200) ''TP53'' 2) = Inr page_wide"
      using d by simp
    from t have "get_gene_specific_expression_in_cancer_type (ex_http ''page-wide'' 200) ex_read_csv ''TP53''
        = Some (Inl (ValueError_length_mismatch 3 2))"
      and "tool_get_gene_specific_expression_in_cancer_type (ex_http ''page-wide'' 200) ex_read_csv ''TP53''
        = Some (Error_list [\<lparr>error = ''An error occurred while search gene: ''
            @ str_exn (ValueError_length_mismatch 3 2)\<rparr>])"
      unfolding h l by simp_all
    then show ?thesis using a c' d' l unfolding str_mismatch_3_2 by simp
  qed
qed

subsection \<open>Terminating runs\<close>

lemma big_columns:
  "columns big_one = [''tcga_participant_barcode'', ''cohort'', ''gene'', ''expression_log2'',
                 ''z-score'']"
  "columns big_two = [''0'', ''1'', ''2'', ''3'', ''4'']"
  by (simp_all add: big_one_def big_two_def)

lemma big_lengths: "length (rows big_one) = 2000" "length (rows big_two) = 2000"
  by (simp_all add: big_one_def big_two_def)

lemma big_good_pages:
  "good_pages (ex_http ''page-2'' 200) big_read_csv ''TP53'' [big_one, big_two]"
  by (simp add: good_pages_def enumerate_eq_zip stops_def content_of_def strip_def isspace_def
      startswith_def request_def ex_http_def big_read_csv_def big_columns)

lemma ex_stops_3: "stops (ex_http b 200) g 3"
  by (simp add: stops_def content_of_def strip_def ex_http_def request_def)

lemma pd_concat_named:
  "dfs \<noteq> [] \<Longrightarrow> pd_concat (map (\<lambda>df. df\<lparr>columns := first_columns dfs\<rparr>) dfs)
     = Inr \<lparr>columns = first_columns dfs, rows = concat (map rows dfs)\<rparr>"
  by (cases dfs) (simp_all add: comp_def)

text \<open>
  C6. A run of the loop ends normally exactly when some pages 1 to \<open>n\<close> pass the
  test and parse, each with the number of columns of page 1, and page \<open>n + 1\<close>
  stops it. The requests sent are then those for pages 1, 2, ..., \<open>n + 1\<close>, which
  differ in the page number only; the frames collected are the parsed pages in
  their order under the column names of page 1, and their concatenation has the
  rows of page 1, then those of page 2, and so on.
\<close>

theorem fetch_loop_dataset:
  "(fetch_loop http_get read_csv (init_state g) = Some (Inr st) \<longrightarrow>
      (\<exists>dfs. good_pages http_get read_csv g dfs \<and> stops http_get g (int (length dfs) + 1)
         \<and> requests st = map (request g) [1..int (length dfs) + 1]
         \<and> all_data st = map (\<lambda>df. df\<lparr>columns := first_columns dfs\<rparr>) dfs
         \<and> (dfs \<noteq> [] \<longrightarrow> pd_concat (all_data st)
               = Inr \<lparr>columns = first_columns dfs, rows = concat (map rows dfs)\<rparr>)))
   \<and> (good_pages http_get read_csv g dfs' \<and> stops http_get g (int (length dfs') + 1) \<longrightarrow>
        fetch_loop http_get read_csv (init_state g) = Some (Inr (final_state g dfs')))"
proof (intro conjI impI)
  assume a: "fetch_loop http_get read_csv (init_state g) = Some (Inr st)"
  have "good_pages http_get read_csv g []" by (simp add: good_pages_def)
  then obtain dfs where dfs: "good_pages http_get read_csv g dfs"
    "stops http_get g (int (length dfs) + 1)" "st = final_state g dfs"
    using fetch_loop_pages[OF a, of g] init_state_after[of g] by blast
  have "requests st = map (request g) [1..int (length dfs) + 1]"
    and ad: "all_data st = map (\<lambda>df. df\<lparr>columns := first_columns dfs\<rparr>) dfs"
    by (simp_all add: dfs(3) final_state_def)
  moreover have "dfs \<noteq> [] \<longrightarrow> pd_concat (all_data st)
               = Inr \<lparr>columns = first_columns dfs, rows = concat (map rows dfs)\<rparr>"
    unfolding ad using pd_concat_named by blast
  ultimately show "\<exists>dfs. good_pages http_get read_csv g dfs \<and> stops http_get g (int (length dfs) + 1)
         \<and> requests st = map (request g) [1..int (length dfs) + 1]
         \<and> all_data st = map (\<lambda>df. df\<lparr>columns := first_columns dfs\<rparr>) dfs
         \<and> (dfs \<noteq> [] \<longrightarrow> pd_concat (all_data st)
               = Inr \<lparr>columns = first_columns dfs, rows = concat (map rows dfs)\<rparr>)"
    using dfs(1,2) by blast
next
  assume b: "good_pages http_get read_csv g dfs' \<and> stops http_get g (int (length dfs') + 1)"
  then have "fetch_loop http_get read_csv (loop_state_after g dfs') = Some (Inr (final_state g dfs'))"
    using fetch_loop_stop by blast
  then show "fetch_loop http_get read_csv (init_state g) = Some (Inr (final_state g dfs'))"
    using fetch_loop_run[of http_get read_csv g dfs'] b by simp
qed

theorem fetch_loop_dataset_witness:
  "good_pages (ex_http ''page-2'' 200) big_read_csv ''TP53'' [big_one, big_two]
   \<and> stops (ex_http ''page-2'' 200) ''TP53'' 3
   \<and> length (rows big_one) = 2000 \<and> length (rows big_two) = 2000
   \<and> length (columns big_one) = 5
   \<and> fetch_loop (ex_http ''page-2'' 200) big_read_csv (init_state ''TP53'')
        = Some (Inr (final_state ''TP53'' [big_one, big_two]))
   \<and> requests (final_state ''TP53'' [big_one, big_two])
        = [request ''TP53'' 1, request ''TP53'' 2, request ''TP53'' 3]
   \<and> pd_concat (all_data (final_state ''TP53'' [big_one, big_two]))
        = Inr \<lparr>columns = columns big_one, rows = rows big_one @ rows big_two\<rparr>
   \<and> length (rows big_one @ rows big_two) = 4000"
proof -
  have s: "stops (ex_http ''page-2'' 200) ''TP53'' (int (length [big_one, big_two]) + 1)"
    using ex_stops_3[of "''page-2''" "''TP53''"] by simp
  have f: "fetch_loop (ex_http ''page-2'' 200) big_read_csv (init_state ''TP53'')
        = Some (Inr (final_state ''TP53'' [big_one, big_two]))"
    using fetch_loop_dataset[of "ex_http ''page-2'' 200" big_read_csv "''TP53''"
        "final_state ''TP53'' [big_one, big_two]" "[big_one, big_two]"] big_good_pages s
    by blast
  have u: "[1..int (length [big_one, big_two]) + 1] = [1, 2, 3]"
    by (simp add: upto.simps)
  have r: "requests (final_state ''TP53'' [big_one, big_two])
        = [request ''TP53'' 1, request ''TP53'' 2, request ''TP53'' 3]"
    unfolding final_state_def u by simp
  have c: "pd_concat (all_data (final_state ''TP53'' [big_one, big_two]))
      = Inr \<lparr>columns = columns big_one, rows = rows big_one @ rows big_two\<rparr>"
    by (simp add: final_state_def)
  show ?thesis
    using big_good_pages ex_stops_3[of "''page-2''" "''TP53''"] f r
    by (simp add: c big_lengths big_columns)
qed

subsection \<open>Determinism\<close>






subsection \<open>Group statistics\<close>
















subsection \<open>A complete run\<close>

lemma aggregate_frame_four: "aggregate frame_four = Inr stats_four"
proof -
  have kv: "key_values frame_four 0 (Suc 0)
      = [(Str ''A'', Num (Fin 5)), (Str ''B'', Num (Fin 5)), (Str ''C'', Num (Fin 5)),
         (Str ''D'', Num (Fin 20))]"
    by (simp add: key_values_def frame_four_def cell_at_def)
  have keys: "isort_by label_le (remdups (map fst (key_values frame_four 0 (Suc 0))))
      = [Str ''A'', Str ''B'', Str ''C'', Str ''D'']"
    by (simp add: kv isort_by_def)
  have r: "agg_row (key_values frame_four 0 (Suc 0)) (Str ''A'')
      = \<lparr>cohort = Str ''A'', mean = Fin 5, std = NaN, count_col = 1\<rparr>"
    "agg_row (key_values frame_four 0 (Suc 0)) (Str ''B'')
      = \<lparr>cohort = Str ''B'', mean = Fin 5, std = NaN, count_col = 1\<rparr>"
    "agg_row (key_values frame_four 0 (Suc 0)) (Str ''C'')
      = \<lparr>cohort = Str ''C'', mean = Fin 5, std = NaN, count_col = 1\<rparr>"
    "agg_row (key_values frame_four 0 (Suc 0)) (Str ''D'')
      = \<lparr>cohort = Str ''D'', mean = Fin 20, std = NaN, count_col = 1\<rparr>"
    by (simp_all add: kv agg_row_def group_values_def series_mean_def series_std_def
        series_count_def dropna_def isnan_def fl_sum_def)
  have i: "index_of (columns frame_four) ''cohort'' = Some 0"
    "index_of (columns frame_four) ''expression_log2'' = Some (Suc 0)"
    by (simp_all add: frame_four_def)
  have ne: "\<not> list_ex (\<lambda>p. is_Str (snd p)) (key_values frame_four 0 (Suc 0))"
    by (simp add: kv)
  have g: "groupby_agg frame_four
      = Inr [\<lparr>cohort = Str ''A'', mean = Fin 5, std = NaN, count_col = 1\<rparr>,
             \<lparr>cohort = Str ''B'', mean = Fin 5, std = NaN, count_col = 1\<rparr>,
             \<lparr>cohort = Str ''C'', mean = Fin 5, std = NaN, count_col = 1\<rparr>,
             \<lparr>cohort = Str ''D'', mean = Fin 20, std = NaN, count_col = 1\<rparr>]"
    unfolding groupby_agg_def i option.case Let_def using ne by (simp add: keys r)
  show ?thesis
    unfolding aggregate_def g sum.case
    by (simp add: sort_values_mean_def isort_by_def isnan_def fl_le_def stats_four_def)
qed

lemma classify_stats_four:
  "classify stats_four =
     \<lparr>high_expression_cancers =
        [\<lparr>cancer_type = Str ''D'', mean_expression = Fin 20, sample_count = 1\<rparr>],
      low_expression_cancers = []\<rparr>"
proof -
  have m: "map mean stats_four = map mean stats_outlier"
    by (simp add: stats_four_def stats_outlier_def)
  have z: "add_zscore stats_four =
     [\<lparr>cohort = Str ''D'', mean = Fin 20, std = NaN, count_col = 1, zscore = Fin (3 / 2)\<rparr>,
      \<lparr>cohort = Str ''A'', mean = Fin 5, std = NaN, count_col = 1, zscore = Fin (- (1 / 2))\<rparr>,
      \<lparr>cohort = Str ''B'', mean = Fin 5, std = NaN, count_col = 1, zscore = Fin (- (1 / 2))\<rparr>,
      \<lparr>cohort = Str ''C'', mean = Fin 5, std = NaN, count_col = 1, zscore = Fin (- (1 / 2))\<rparr>]"
    unfolding add_zscore_def z_of_def m mean_stats_outlier std_stats_outlier
    by (simp add: stats_four_def fl_sub_def)
  have "rint (20 * 1000) = 20000" using rint_int[of 20000] by simp
  then show ?thesis
    unfolding classify_def z Let_def
    by (simp add: fl_gt_def sort_values_mean_def isort_by_def isnan_def to_entry_def)
qed

text \<open>
  A complete run: page 1 has cohorts A and B, page 2 has C and D, page 3 is empty.
  The means are 5, 5, 5 and 20; D alone is classified, as high.
\<close>

lemma example_run:
  "tool_get_gene_specific_expression_in_cancer_type (ex_http ''page-2'' 200) ex_read_csv ''TP53''
    = Some (Result \<lparr>high_expression_cancers =
        [\<lparr>cancer_type = Str ''D'', mean_expression = Fin 20, sample_count = 1\<rparr>],
      low_expression_cancers = []\<rparr>)"
proof -
  have "stops (ex_http ''page-2'' 200) ''TP53'' (int (length [page_one, page_two]) + 1)"
    using ex_stops_3[of "''page-2''" "''TP53''"] by simp
  then have "fetch_loop (ex_http ''page-2'' 200) ex_read_csv (loop_state_after ''TP53'' [page_one, page_two])
      = Some (Inr (final_state ''TP53'' [page_one, page_two]))"
    by (rule fetch_loop_stop)
  then have f: "fetch_loop (ex_http ''page-2'' 200) ex_read_csv (init_state ''TP53'')
      = Some (Inr (final_state ''TP53'' [page_one, page_two]))"
    using fetch_loop_run[of "ex_http ''page-2'' 200" ex_read_csv "''TP53''" "[page_one, page_two]"]
      ex_good_pages[of 200 "''TP53''"] by simp
  have c: "pd_concat (all_data (final_state ''TP53'' [page_one, page_two])) = Inr frame_four"
    by (simp add: final_state_def page_one_def page_two_def frame_four_def)
  have "analyse (all_data (final_state ''TP53'' [page_one, page_two]))
      = Inr (classify stats_four)"
    unfolding analyse_def c by (simp add: final_state_def aggregate_frame_four)
  then show ?thesis
    by (simp add: tool_get_gene_specific_expression_in_cancer_type_def
        get_gene_specific_expression_in_cancer_type_def f classify_stats_four)
qed

end
